theory Spec2Isabelle
  imports Complex_Main "HOL-Library.Sublist"
begin

section \<open>Values, exceptions and library functions\<close>

text \<open>
  The program is \<^verbatim>\<open>src/g11.py\<close>: a chat handler that asks a hosted model for a
  JSON plan and executes its file system actions inside a workspace directory.
  What \<^verbatim>\<open>json.loads\<close> returns is a \<open>json\<close> value; Python's \<open>None\<close> is
  \<open>JNull\<close>, a \<open>dict\<close> is the list of its items (keys distinct). Strings are
  \<open>string\<close>s: lists of characters with code points below 256.
\<close>

datatype json =
    JNull
  | JBool bool
  | JInt int
  | JFloat real
  | JStr string
  | JList "json list"
  | JObj "(string \<times> json) list"

text \<open>Truth value testing, as \<^verbatim>\<open>if x\<close> and \<^verbatim>\<open>not x\<close> do it.\<close>

fun truthy :: "json \<Rightarrow> bool" where
  "truthy JNull = False"
| "truthy (JBool b) = b"
| "truthy (JInt i) = (i \<noteq> 0)"
| "truthy (JFloat r) = (r \<noteq> 0)"
| "truthy (JStr s) = (s \<noteq> [])"
| "truthy (JList xs) = (xs \<noteq> [])"
| "truthy (JObj kvs) = (kvs \<noteq> [])"

text \<open>\<^verbatim>\<open>d.get(k, default)\<close>.\<close>

definition dict_get :: "(string \<times> json) list \<Rightarrow> string \<Rightarrow> json \<Rightarrow> json" where
  "dict_get kvs k d = (case map_of kvs k of None \<Rightarrow> d | Some v \<Rightarrow> v)"

type_synonym path = "string list"

text \<open>
  The exceptions the modelled code can meet. An \<open>os_error\<close> carries the path
  of the failing system call; \<open>AttributeError\<close> and \<open>TypeError\<close> carry the
  offending value; \<open>CallError\<close> is any failure of the model call.
\<close>

datatype os_error =
    FileExistsError path
  | FileNotFoundError path
  | NotADirectoryError path
  | IsADirectoryError path

datatype py_exc =
    AttributeError json
  | TypeError json
  | ValueError string
  | OSError os_error
  | CallError string

text \<open>
  The library functions whose results the program only passes on are parameters:
  \<^verbatim>\<open>json.loads\<close> (\<open>None\<close> when it raises), \<^verbatim>\<open>json.dumps(_, indent=2)\<close>,
  \<^verbatim>\<open>str\<close> on a value that is not a string, and the text of an exception.
\<close>

record pylib =
  loads :: "string \<Rightarrow> json option"
  dumps :: "json \<Rightarrow> string"
  str_of :: "json \<Rightarrow> string"
  exc_str :: "py_exc \<Rightarrow> string"

text \<open>A value inside an f-string: a string stands for itself.\<close>

definition fmt :: "pylib \<Rightarrow> json \<Rightarrow> string" where
  "fmt L v = (case v of JStr s \<Rightarrow> s | _ \<Rightarrow> str_of L v)"

definition sq :: string where
  "sq = [CHR 0x27]"

definition nl :: string where
  "nl = [CHR 0x0A]"

definition fence :: string where
  "fence = replicate 3 (CHR 0x60)"

section \<open>Paths\<close>

text \<open>
  \<^verbatim>\<open>pathlib\<close> on POSIX. A path is an anchor and its components; parsing drops
  empty components and \<^verbatim>\<open>.\<close>, keeps \<^verbatim>\<open>..\<close>, and reads exactly two leading
  slashes as a root of their own. The workspace root \<^verbatim>\<open>WORKSPACE_DIR\<close> is
  resolved at start-up: it is absolute, given by its components \<open>ws\<close>.
\<close>

fun split_on :: "char \<Rightarrow> string \<Rightarrow> string list" where
  "split_on c [] = [[]]"
| "split_on c (x # xs) =
     (if x = c then [] # split_on c xs
      else (case split_on c xs of [] \<Rightarrow> [[x]] | y # ys \<Rightarrow> (x # y) # ys))"

datatype anchor = Relative | Slash | DoubleSlash

definition anchor_of :: "string \<Rightarrow> anchor" where
  "anchor_of p =
     (let n = length (takeWhile (\<lambda>c. c = CHR ''/'') p)
      in if n = 0 then Relative else if n = 2 then DoubleSlash else Slash)"

definition parts_of :: "string \<Rightarrow> string list" where
  "parts_of p = filter (\<lambda>s. s \<noteq> [] \<and> s \<noteq> ''.'') (split_on CHR ''/'' p)"

text \<open>\<^verbatim>\<open>WORKSPACE_DIR.joinpath(path_str)\<close>: an absolute argument replaces the root.\<close>

definition joinpath :: "path \<Rightarrow> string \<Rightarrow> anchor \<times> string list" where
  "joinpath ws p =
     (if anchor_of p = Relative then (Slash, ws @ parts_of p)
      else (anchor_of p, parts_of p))"

text \<open>
  \<^verbatim>\<open>resolve()\<close> on a file system without symbolic links: \<^verbatim>\<open>..\<close> removes the
  component before it (at the root it is dropped), and the result is rooted at
  a single slash. The result is the list of components below the root.
\<close>

fun collapse :: "path \<Rightarrow> string list \<Rightarrow> path" where
  "collapse acc [] = acc"
| "collapse acc (x # xs) = (if x = ''..'' then collapse (butlast acc) xs else collapse (acc @ [x]) xs)"

definition resolve :: "anchor \<times> string list \<Rightarrow> path" where
  "resolve jp = collapse [] (snd jp)"

text \<open>\<^verbatim>\<open>p.parents\<close>: the proper ancestors, nearest first.\<close>

definition parents :: "path \<Rightarrow> path list" where
  "parents p = map (\<lambda>n. take n p) (rev [0..<length p])"

section \<open>The file system\<close>

text \<open>
  A file system maps the absolute path of every existing entry to a directory
  or to a file with its content. The only failures are structural ones: a
  missing or non-directory ancestor, an entry in the way. Permissions, quotas
  and name length limits are not modelled.
\<close>

datatype node = Dir | File string

type_synonym fs = "path \<Rightarrow> node option"

text \<open>
  The kernel resolves the directory part of a path: \<open>walk fs p cur rest\<close>
  descends from \<open>cur\<close> along \<open>rest\<close>, and every directory entered must exist.
\<close>

fun walk :: "fs \<Rightarrow> path \<Rightarrow> path \<Rightarrow> string list \<Rightarrow> os_error option" where
  "walk fs p cur [] = None"
| "walk fs p cur (x # xs) =
     (case fs cur of
        Some Dir \<Rightarrow> walk fs p (cur @ [x]) xs
      | Some (File c) \<Rightarrow> Some (NotADirectoryError p)
      | None \<Rightarrow> Some (FileNotFoundError p))"

definition os_mkdir :: "fs \<Rightarrow> path \<Rightarrow> os_error + fs" where
  "os_mkdir fs p =
     (case walk fs p [] p of
        Some e \<Rightarrow> Inl e
      | None \<Rightarrow> if fs p \<noteq> None then Inl (FileExistsError p) else Inr (fs(p \<mapsto> Dir)))"

text \<open>
  \<^verbatim>\<open>Path.mkdir(parents=False, exist_ok=True)\<close> and
  \<^verbatim>\<open>Path.mkdir(parents=True, exist_ok=True)\<close>, as \<^verbatim>\<open>pathlib\<close> writes them: a
  missing ancestor makes the second create the parent first; any other error is
  dropped when the path is a directory. The file system is returned in
  either case.
\<close>

definition mkdir_noparents :: "fs \<Rightarrow> path \<Rightarrow> os_error option \<times> fs" where
  "mkdir_noparents fs p =
     (case os_mkdir fs p of
        Inr fs' \<Rightarrow> (None, fs')
      | Inl (FileNotFoundError q) \<Rightarrow> (Some (FileNotFoundError q), fs)
      | Inl e \<Rightarrow> if fs p = Some Dir then (None, fs) else (Some e, fs))"

function mkdir :: "fs \<Rightarrow> path \<Rightarrow> os_error option \<times> fs" where
  "mkdir fs p =
     (case os_mkdir fs p of
        Inr fs' \<Rightarrow> (None, fs')
      | Inl (FileNotFoundError q) \<Rightarrow>
          if p = [] then (Some (FileNotFoundError q), fs)
          else (case mkdir fs (butlast p) of
                  (Some e, fs1) \<Rightarrow> (Some e, fs1)
                | (None, fs1) \<Rightarrow> mkdir_noparents fs1 p)
      | Inl e \<Rightarrow> if fs p = Some Dir then (None, fs) else (Some e, fs))"
  by pat_completeness auto
termination
  by (relation "measure (\<lambda>(fs, p). length p)") auto

declare mkdir.simps [simp del]

text \<open>\<^verbatim>\<open>open(p, "w")\<close>: the file is created or truncated.\<close>

definition open_w :: "fs \<Rightarrow> path \<Rightarrow> os_error + fs" where
  "open_w fs p =
     (case walk fs p [] p of
        Some e \<Rightarrow> Inl e
      | None \<Rightarrow> if fs p = Some Dir then Inl (IsADirectoryError p) else Inr (fs(p \<mapsto> File [])))"

section \<open>\<^verbatim>\<open>execute_action\<close>\<close>

text \<open>
  Lines 59 to 68: the dispatch on the action type, inside the \<^verbatim>\<open>try\<close>. An
  exception leaves as \<open>Inl\<close>, with the file system as it then is.
\<close>

definition perform ::
  "fs \<Rightarrow> json \<Rightarrow> string \<Rightarrow> json \<Rightarrow> path \<Rightarrow> pylib \<Rightarrow> (py_exc + bool \<times> string) \<times> fs" where
  "perform fs action_type path_str content target_path L =
     (if action_type = JStr ''create_folder'' then
        (case mkdir fs target_path of
           (Some e, fs1) \<Rightarrow> (Inl (OSError e), fs1)
         | (None, fs1) \<Rightarrow> (Inr (True, ''Folder created/ensured: '' @ path_str), fs1))
      else if action_type = JStr ''create_file'' \<or> action_type = JStr ''edit_file'' then
        (case mkdir fs (butlast target_path) of
           (Some e, fs1) \<Rightarrow> (Inl (OSError e), fs1)
         | (None, fs1) \<Rightarrow>
             (case open_w fs1 target_path of
                Inl e \<Rightarrow> (Inl (OSError e), fs1)
              | Inr fs2 \<Rightarrow>
                  (case content of
                     JStr c \<Rightarrow>
                       (Inr (True, ''File ''
                           @ (if action_type = JStr ''create_file'' then ''Created'' else ''Edited'')
                           @ '': '' @ path_str),
                        fs2(target_path \<mapsto> File c))
                   | _ \<Rightarrow> (Inl (TypeError content), fs2))))
      else (Inr (False, ''Error: Unknown action type '' @ sq @ fmt L action_type @ sq @ ''.''), fs))"

text \<open>
  Lines 52 to 68: the body of the \<^verbatim>\<open>try\<close>. \<^verbatim>\<open>joinpath\<close> raises on an argument
  that is not a string, \<^verbatim>\<open>resolve\<close> on a null character.
\<close>

definition try_body ::
  "pylib \<Rightarrow> path \<Rightarrow> fs \<Rightarrow> json \<Rightarrow> json \<Rightarrow> json \<Rightarrow> (py_exc + bool \<times> string) \<times> fs" where
  "try_body L ws fs action_type path_str content =
     (case path_str of
        JStr p \<Rightarrow>
          if CHR 0x00 \<in> set p then (Inl (ValueError ''embedded null byte''), fs)
          else
            (let target_path = resolve (joinpath ws p) in
             if ws \<notin> set (parents target_path) \<and> target_path \<noteq> ws then
               if \<not> (action_type = JStr ''create_folder'' \<and> (Slash, target_path) = joinpath ws p)
               then (Inr (False, ''Error: Path '' @ sq @ p @ sq @ '' is outside the allowed workspace.''), fs)
               else perform fs action_type p content target_path L
             else perform fs action_type p content target_path L)
      | _ \<Rightarrow> (Inl (TypeError path_str), fs))"

text \<open>
  The whole function. Its result is \<open>Inr (success, message)\<close>; \<open>Inl\<close> is an
  exception that leaves the function, which only \<^verbatim>\<open>action.get\<close> on a value
  that is not a \<^verbatim>\<open>dict\<close> raises (lines 45 to 47 stand before the \<^verbatim>\<open>try\<close>).
\<close>

definition execute_action ::
  "pylib \<Rightarrow> path \<Rightarrow> fs \<Rightarrow> json \<Rightarrow> (py_exc + bool \<times> string) \<times> fs" where
  "execute_action L ws fs action =
     (case action of
        JObj kvs \<Rightarrow>
          (let action_type = dict_get kvs ''type'' JNull;
               path_str = dict_get kvs ''path'' JNull;
               content = dict_get kvs ''content'' (JStr [])
           in if \<not> truthy action_type \<or> \<not> truthy path_str
              then (Inr (False, ''Error: Action type or path missing.''), fs)
              else (case try_body L ws fs action_type path_str content of
                      (Inl e, fs1) \<Rightarrow>
                        (Inr (False, ''Error performing '' @ sq @ fmt L action_type @ sq
                            @ '' on '' @ sq @ fmt L path_str @ sq @ '': '' @ exc_str L e), fs1)
                    | (Inr r, fs1) \<Rightarrow> (Inr r, fs1)))
      | _ \<Rightarrow> (Inl (AttributeError action), fs))"

section \<open>Strings\<close>

text \<open>
  \<^verbatim>\<open>s.split(sep, 1)\<close> for a separator that is not empty: \<open>None\<close> when \<open>sep\<close>
  does not occur in \<open>s\<close> (the result has one element), otherwise the text
  before and after its first occurrence. \<^verbatim>\<open>sep in s\<close> asks whether it occurs.
\<close>

fun split_once :: "string \<Rightarrow> string \<Rightarrow> (string \<times> string) option" where
  "split_once sep [] = (if sep = [] then Some ([], []) else None)"
| "split_once sep (c # cs) =
     (if prefix sep (c # cs) then Some ([], drop (length sep) (c # cs))
      else (case split_once sep cs of None \<Rightarrow> None | Some (a, b) \<Rightarrow> Some (c # a, b)))"

definition isspace :: "char \<Rightarrow> bool" where
  "isspace c = (of_char c \<in> {9, 10, 11, 12, 13, 28, 29, 30, 31, 32, 133, 160 :: nat})"

definition strip :: "string \<Rightarrow> string" where
  "strip s = rev (dropWhile isspace (rev (dropWhile isspace s)))"

text \<open>A natural number in decimal, as an f-string prints it.\<close>

definition digit :: "nat \<Rightarrow> char" where
  "digit d = char_of (48 + d)"

function str_nat :: "nat \<Rightarrow> string" where
  "str_nat n = (if n < 10 then [digit n] else str_nat (n div 10) @ [digit (n mod 10)])"
  by pat_completeness auto
termination
  by (relation "measure id") auto

declare str_nat.simps [simp del]

text \<open>\<^verbatim>\<open>sep.join(xs)\<close>: the first item that is not a string raises \<^verbatim>\<open>TypeError\<close>.\<close>

fun join_strs :: "string \<Rightarrow> json list \<Rightarrow> py_exc + string" where
  "join_strs sep [] = Inr []"
| "join_strs sep (x # xs) =
     (case x of
        JStr s \<Rightarrow>
          (case join_strs sep xs of
             Inl e \<Rightarrow> Inl e
           | Inr r \<Rightarrow> Inr (if xs = [] then s else s @ sep @ r))
      | _ \<Rightarrow> Inl (TypeError x))"

section \<open>Parsing the model's text\<close>

text \<open>
  Lines 197 to 206. The three \<^verbatim>\<open>raise\<close> sites are the three errors: no
  \<^verbatim>\<open>```json\<close> marker with a closing fence after it, \<^verbatim>\<open>json.loads\<close> raising,
  and a value that is not a \<^verbatim>\<open>dict\<close> with the key \<^verbatim>\<open>response_type\<close>.
\<close>

datatype parse_error = NoJsonBlock | InvalidJson | MissingResponseType

definition is_dict :: "json \<Rightarrow> bool" where
  "is_dict v = (case v of JObj kvs \<Rightarrow> True | _ \<Rightarrow> False)"

definition items :: "json \<Rightarrow> (string \<times> json) list" where
  "items v = (case v of JObj kvs \<Rightarrow> kvs | _ \<Rightarrow> [])"

definition is_list :: "json \<Rightarrow> bool" where
  "is_list v = (case v of JList xs \<Rightarrow> True | _ \<Rightarrow> False)"

definition elements :: "json \<Rightarrow> json list" where
  "elements v = (case v of JList xs \<Rightarrow> xs | _ \<Rightarrow> [])"

text \<open>
  Lines 198 and 199: the text between the first marker and the first fence
  after it, stripped; \<open>None\<close> when the test of line 198 fails.
\<close>

definition json_str :: "string \<Rightarrow> string option" where
  "json_str raw_response_text =
     (case split_once (fence @ ''json'') raw_response_text of
        None \<Rightarrow> None
      | Some (before, rest) \<Rightarrow>
          (case split_once fence rest of
             None \<Rightarrow> None
           | Some (body, after) \<Rightarrow> Some (strip body)))"

definition parse_response :: "pylib \<Rightarrow> string \<Rightarrow> parse_error + json" where
  "parse_response L raw_response_text =
     (case json_str raw_response_text of
        None \<Rightarrow> Inl NoJsonBlock
      | Some js \<Rightarrow>
          (case loads L js of
             None \<Rightarrow> Inl InvalidJson
           | Some parsed_response \<Rightarrow>
               if \<not> is_dict parsed_response
                  \<or> map_of (items parsed_response) ''response_type'' = None
               then Inl MissingResponseType
               else Inr parsed_response))"

section \<open>The conversation, the controls and the progress events\<close>

text \<open>
  An entry of the history is a \<^verbatim>\<open>dict\<close> with a role and a content; the content
  is a string but for an informational message, which is stored as the model
  gave it. Each \<^verbatim>\<open>yield\<close> is an event: the history and the controls as they
  then are, and whether the halt button is enabled.
\<close>

record entry =
  role :: string
  content :: json

record controls =
  halt_requested :: bool

record event =
  ev_history :: "entry list"
  ev_controls :: controls
  ev_interactive :: bool

text \<open>The state of one turn: what the generator holds, the files, the events so far.\<close>

record run =
  history :: "entry list"
  ctl :: controls
  files :: fs
  events :: "event list"

definition request_halt :: "controls \<Rightarrow> controls" where
  "request_halt c = c\<lparr>halt_requested := True\<rparr>"

text \<open>\<^verbatim>\<open>history.append({"role": "assistant", "content": v})\<close>.\<close>

definition append_value :: "json \<Rightarrow> run \<Rightarrow> run" where
  "append_value v st = st\<lparr>history := history st @ [\<lparr>role = ''assistant'', content = v\<rparr>]\<rparr>"

definition say :: "string \<Rightarrow> run \<Rightarrow> run" where
  "say m st = append_value (JStr m) st"

text \<open>\<^verbatim>\<open>yield history, controls, gr.update(interactive=b)\<close>.\<close>

definition emit :: "bool \<Rightarrow> run \<Rightarrow> run" where
  "emit b st =
     st\<lparr>events := events st
        @ [\<lparr>ev_history = history st, ev_controls = ctl st, ev_interactive = b\<rparr>]\<rparr>"

section \<open>The plan loop\<close>

definition halt_message :: "nat \<Rightarrow> string" where
  "halt_message i = nl @ ''Execution halted by user request before step '' @ str_nat (i + 1) @ ''.''"

definition step_message :: "pylib \<Rightarrow> nat \<Rightarrow> nat \<Rightarrow> json \<Rightarrow> string" where
  "step_message L step_num num_steps action_to_execute =
     nl @ ''--- Executing Step '' @ str_nat step_num @ ''/'' @ str_nat num_steps @ '' ---'' @ nl
     @ ''Action:'' @ nl @ fence @ ''json'' @ nl @ dumps L action_to_execute @ nl @ fence @ nl"

definition result_message :: "nat \<Rightarrow> string \<Rightarrow> string" where
  "result_message step_num result_msg = ''Result (Step '' @ str_nat step_num @ ''): '' @ result_msg"

definition stop_message :: string where
  "stop_message = nl @ ''Execution failed. Stopping plan.''"

definition done_message :: string where
  "done_message = nl @ ''Plan successfully completed!''"

text \<open>
  How the \<^verbatim>\<open>for\<close> loop of lines 234 to 261 ends: with the two flags
  \<^verbatim>\<open>all_steps_succeeded\<close> and \<^verbatim>\<open>execution_halted\<close>, or with an exception that
  \<^verbatim>\<open>execute_action\<close> let through.
\<close>

datatype loop_exit = Flags bool bool | Raised py_exc

text \<open>
  The loop, from step index \<open>i\<close> (counted from 0) over the steps that remain.
  The halt flag is shared with the handler of the halt button, which runs while
  the generator is suspended: \<open>halts i\<close> says that \<^verbatim>\<open>request_halt\<close> was called
  between the previous reading of the flag and the reading before step \<open>i\<close>.
  \<^verbatim>\<open>time.sleep\<close> has no counterpart.
\<close>

fun run_steps ::
  "pylib \<Rightarrow> path \<Rightarrow> (nat \<Rightarrow> bool) \<Rightarrow> nat \<Rightarrow> nat \<Rightarrow> json list \<Rightarrow> run \<Rightarrow> loop_exit \<times> run" where
  "run_steps L ws halts num_steps i [] st = (Flags True False, st)"
| "run_steps L ws halts num_steps i (action_to_execute # rest) st =
     (let st0 = (if halts i then st\<lparr>ctl := request_halt (ctl st)\<rparr> else st) in
      if halt_requested (ctl st0) then
        (Flags True True, emit False (say (halt_message i) st0))
      else
        (let step_num = i + 1;
             st1 = emit True (say (step_message L step_num num_steps action_to_execute) st0)
         in case execute_action L ws (files st1) action_to_execute of
              (Inl e, fs1) \<Rightarrow> (Raised e, st1\<lparr>files := fs1\<rparr>)
            | (Inr (success, result_msg), fs1) \<Rightarrow>
                (let st2 = emit True (say (result_message step_num result_msg) (st1\<lparr>files := fs1\<rparr>))
                 in if \<not> success then (Flags False False, emit False (say stop_message st2))
                    else run_steps L ws halts num_steps (i + 1) rest st2)))"

text \<open>Lines 263 to 267, after the loop.\<close>

definition after_loop :: "bool \<Rightarrow> bool \<Rightarrow> run \<Rightarrow> run" where
  "after_loop all_steps_succeeded execution_halted st =
     (if \<not> execution_halted then
        emit False (if all_steps_succeeded then say done_message st else st)
      else st)"

section \<open>\<^verbatim>\<open>agent_chat_response\<close>\<close>

definition plan_message :: "nat \<Rightarrow> string \<Rightarrow> string" where
  "plan_message num_steps lang_str =
     ''Plan generated with '' @ str_nat num_steps @ '' step(s).'' @ nl
     @ ''**Language(s) to be used:** '' @ lang_str @ nl
     @ ''Starting execution...'' @ nl @ ''(Click '' @ sq @ ''Halt'' @ sq @ '' to stop)''"

definition invalid_plan_message :: string where
  "invalid_plan_message = ''The AI generated an empty or invalid plan. Please try again.''"

text \<open>
  Lines 217 to 272: a response of type \<^verbatim>\<open>plan\<close>. The result is the exception
  that left the branch, if any, and the state.
\<close>

definition process_plan ::
  "pylib \<Rightarrow> path \<Rightarrow> (nat \<Rightarrow> bool) \<Rightarrow> json \<Rightarrow> run \<Rightarrow> py_exc option \<times> run" where
  "process_plan L ws halts parsed_response st =
     (let plan = dict_get (items parsed_response) ''plan_steps'' (JList []);
          languages_used = dict_get (items parsed_response) ''languages_used'' (JList []);
          declared_languages = (if \<not> is_list languages_used then [] else elements languages_used)
      in if is_list plan \<and> truthy plan then
           (let num_steps = length (elements plan) in
            case (if declared_languages \<noteq> [] then join_strs '', '' declared_languages
                  else Inr ''N/A'') of
              Inl e \<Rightarrow> (Some e, st)
            | Inr lang_str \<Rightarrow>
                (let st1 = emit True (say (plan_message num_steps lang_str) st) in
                 case run_steps L ws halts num_steps 0 (elements plan) st1 of
                   (Raised e, st2) \<Rightarrow> (Some e, st2)
                 | (Flags all_steps_succeeded execution_halted, st2) \<Rightarrow>
                     (None, after_loop all_steps_succeeded execution_halted st2)))
         else (None, emit False (say invalid_plan_message st)))"

definition parse_failure_message :: "string \<Rightarrow> string" where
  "parse_failure_message raw_response_text =
     ''Error: Could not parse the response from the AI.'' @ nl
     @ ''(Raw response: '' @ take 500 raw_response_text @ ''...)''"

text \<open>
  Lines 187 to 289, the rest of the outer \<^verbatim>\<open>try\<close>. The prompt only reaches
  the model, whose answer \<open>reply\<close> is an input: the text, or the exception of
  the call.
\<close>

definition respond ::
  "pylib \<Rightarrow> path \<Rightarrow> (py_exc + string) \<Rightarrow> (nat \<Rightarrow> bool) \<Rightarrow> run \<Rightarrow> py_exc option \<times> run" where
  "respond L ws reply halts st =
     (case reply of
        Inl e \<Rightarrow> (Some e, st)
      | Inr raw_response_text \<Rightarrow>
          (let parsed = parse_response L raw_response_text;
               parsed_response = (case parsed of Inl err \<Rightarrow> JNull | Inr v \<Rightarrow> v);
               parsing_error =
                 (case parsed of Inl err \<Rightarrow> parse_failure_message raw_response_text | Inr v \<Rightarrow> [])
           in if truthy parsed_response then
                (let response_type = dict_get (items parsed_response) ''response_type'' JNull in
                 if response_type = JStr ''plan'' then process_plan L ws halts parsed_response st
                 else if response_type = JStr ''informational'' then
                   (None, emit False (append_value
                      (dict_get (items parsed_response) ''message''
                         (JStr (''Sorry, I couldn'' @ sq @ ''t formulate an answer.''))) st))
                 else
                   (None, emit False (say (''Received an unknown response type ('' @ sq
                      @ fmt L response_type @ sq @ '') from the AI.'') st)))
              else
                (None, emit False (say (if parsing_error \<noteq> [] then parsing_error
                   else ''Sorry, I couldn'' @ sq @ ''t generate a valid response.'') st))))"

text \<open>
  The generator, from the reset of the halt flag to the last \<^verbatim>\<open>yield\<close> of line
  301. \<open>fs\<close> is the file system at the start of the turn; the result holds the
  events in the order of their emission and the file system at the end.
\<close>

definition agent_chat_response ::
  "pylib \<Rightarrow> path \<Rightarrow> (py_exc + string) \<Rightarrow> (nat \<Rightarrow> bool) \<Rightarrow> fs
     \<Rightarrow> string \<Rightarrow> entry list \<Rightarrow> controls \<Rightarrow> run" where
  "agent_chat_response L ws reply halts fs message history0 controls0 =
     (let st0 = \<lparr>history = history0, ctl = controls0\<lparr>halt_requested := False\<rparr>,
                 files = fs, events = []\<rparr>;
          st1 = emit False st0;
          st2 = emit False (say ''Thinking...'' st1)
      in case respond L ws reply halts st2 of
           (Some e, st3) \<Rightarrow>
             emit False (emit False (say (''An unexpected error occurred: '' @ exc_str L e @ ''.'') st3))
         | (None, st3) \<Rightarrow> emit False st3)"

section \<open>Concrete inputs\<close>

text \<open>
  A library, a workspace root and a file system on which the theorems below
  are instantiated: the workspace is \<^verbatim>\<open>/home/agent_workspace\<close>, and \<^verbatim>\<open>/etc\<close>
  lies outside of it.
\<close>

definition dq :: string where
  "dq = [CHR 0x22]"

definition folder_app :: json where
  "folder_app = JObj [(''type'', JStr ''create_folder''), (''path'', JStr ''app'')]"

definition file_no_path :: json where
  "file_no_path = JObj [(''type'', JStr ''create_file'')]"

definition empty_plan_text :: string where
  "empty_plan_text =
     ''{'' @ dq @ ''response_type'' @ dq @ '': '' @ dq @ ''plan'' @ dq @ '', ''
       @ dq @ ''plan_steps'' @ dq @ '': []}''"

definition empty_plan :: json where
  "empty_plan = JObj [(''response_type'', JStr ''plan''), (''plan_steps'', JList [])]"

definition one_step_text :: string where
  "one_step_text =
     ''{'' @ dq @ ''response_type'' @ dq @ '': '' @ dq @ ''plan'' @ dq @ '', ''
       @ dq @ ''plan_steps'' @ dq @ '': [{'' @ dq @ ''type'' @ dq @ '': '' @ dq @ ''create_folder'' @ dq
       @ '', '' @ dq @ ''path'' @ dq @ '': '' @ dq @ ''app'' @ dq @ ''}]}''"

definition one_step_plan :: json where
  "one_step_plan = JObj [(''response_type'', JStr ''plan''), (''plan_steps'', JList [folder_app])]"

definition bad_step_text :: string where
  "bad_step_text =
     ''{'' @ dq @ ''response_type'' @ dq @ '': '' @ dq @ ''plan'' @ dq @ '', ''
       @ dq @ ''plan_steps'' @ dq @ '': [{'' @ dq @ ''type'' @ dq @ '': '' @ dq @ ''create_folder'' @ dq
       @ '', '' @ dq @ ''path'' @ dq @ '': '' @ dq @ ''app'' @ dq @ ''}, {''
       @ dq @ ''type'' @ dq @ '': '' @ dq @ ''create_file'' @ dq @ ''}]}''"

definition bad_step_plan :: json where
  "bad_step_plan =
     JObj [(''response_type'', JStr ''plan''), (''plan_steps'', JList [folder_app, file_no_path])]"

text \<open>
  The example library parses the texts above and \<^verbatim>\<open>[]\<close> to their values and
  raises on any other text; the texts it prints are empty.
\<close>

definition example_loads :: "string \<Rightarrow> json option" where
  "example_loads s =
     (if s = empty_plan_text then Some empty_plan
      else if s = one_step_text then Some one_step_plan
      else if s = bad_step_text then Some bad_step_plan
      else if s = ''[]'' then Some (JList [])
      else None)"

definition example_lib :: pylib where
  "example_lib =
     \<lparr>loads = example_loads, dumps = (\<lambda>v. []), str_of = (\<lambda>v. []), exc_str = (\<lambda>e. [])\<rparr>"

text \<open>A model answer: the text \<open>t\<close> in a fenced block.\<close>

definition fenced :: "string \<Rightarrow> string" where
  "fenced t = ''Here is the plan.'' @ nl @ fence @ ''json'' @ nl @ t @ nl @ fence @ nl"

definition example_ws :: path where
  "example_ws = [''home'', ''agent_workspace'']"

definition example_fs :: fs where
  "example_fs =
     [[] \<mapsto> Dir, [''home''] \<mapsto> Dir, [''home'', ''agent_workspace''] \<mapsto> Dir, [''etc''] \<mapsto> Dir]"

section \<open>The workspace check\<close>

lemma in_parents: "q \<in> set (parents p) \<longleftrightarrow> strict_prefix q p"
proof
  assume "q \<in> set (parents p)"
  then obtain n where n: "n < length p" "q = take n p"
    by (auto simp: parents_def)
  then have "prefix q p" "length q < length p"
    by (simp_all add: take_is_prefix)
  then show "strict_prefix q p"
    by (auto simp: strict_prefix_def)
next
  assume "strict_prefix q p"
  then obtain zs where zs: "p = q @ zs" "zs \<noteq> []"
    by (auto simp: strict_prefix_def prefix_def)
  then have "q = take (length q) p" "length q < length p"
    by simp_all
  then show "q \<in> set (parents p)"
    unfolding parents_def by (auto simp: image_iff intro!: bexI [of _ "length q"])
qed

text \<open>
  A path string lies outside the workspace when the path it resolves to is
  neither the workspace root nor below it.
\<close>

definition outside :: "path \<Rightarrow> string \<Rightarrow> bool" where
  "outside ws p =
     (resolve (joinpath ws p) \<noteq> ws \<and> \<not> strict_prefix ws (resolve (joinpath ws p)))"

text \<open>
  What the check of lines 54 to 57 does reject: every path outside the
  workspace, for every action type, unless the type is \<^verbatim>\<open>create_folder\<close> and
  resolving changed nothing in the joined path. The file system is untouched.
\<close>

lemma traversal_rejected:
  assumes "dict_get kvs ''type'' JNull = t" "truthy t"
    and "dict_get kvs ''path'' JNull = JStr p" "p \<noteq> []" "CHR 0x00 \<notin> set p"
    and "outside ws p"
    and "\<not> (t = JStr ''create_folder'' \<and> joinpath ws p = (Slash, resolve (joinpath ws p)))"
  shows "execute_action L ws fs (JObj kvs)
           = (Inr (False, ''Error: Path '' @ sq @ p @ sq @ '' is outside the allowed workspace.''), fs)"
  using assms
  by (auto simp: execute_action_def try_body_def Let_def in_parents outside_def)

text \<open>
  Claim C1. Every action whose path resolves outside the workspace is to be
  refused with a path-traversal error and no change of the file system, for
  every action type, \<^verbatim>\<open>create_folder\<close> too. The code does not do so: for
  \<^verbatim>\<open>create_folder\<close> line 55 lets through a path that \<^verbatim>\<open>resolve\<close> leaves as
  \<^verbatim>\<open>joinpath\<close> built it, which is every absolute path without \<^verbatim>\<open>..\<close>. With the
  workspace \<^verbatim>\<open>/home/agent_workspace\<close>, the action \<^verbatim>\<open>create_folder\<close> on
  \<^verbatim>\<open>/etc/evil\<close> reports success and creates the directory, while
  \<^verbatim>\<open>create_file\<close> on the same path is refused.
\<close>

theorem create_folder_escapes:
  "outside example_ws ''/etc/evil''
   \<and> example_fs [''etc'', ''evil''] = None
   \<and> fst (execute_action example_lib example_ws example_fs
          (JObj [(''type'', JStr ''create_folder''), (''path'', JStr ''/etc/evil'')]))
       = Inr (True, ''Folder created/ensured: /etc/evil'')
   \<and> snd (execute_action example_lib example_ws example_fs
          (JObj [(''type'', JStr ''create_folder''), (''path'', JStr ''/etc/evil'')]))
         [''etc'', ''evil'']
       = Some Dir
   \<and> execute_action example_lib example_ws example_fs
          (JObj [(''type'', JStr ''create_file''), (''path'', JStr ''/etc/evil'')])
       = (Inr (False, ''Error: Path '' @ sq @ ''/etc/evil'' @ sq
            @ '' is outside the allowed workspace.''), example_fs)"
proof -
  have o: "outside example_ws ''/etc/evil''"
    by code_simp
  have a: "example_fs [''etc'', ''evil''] = None"
    by code_simp
  have b: "fst (execute_action example_lib example_ws example_fs
          (JObj [(''type'', JStr ''create_folder''), (''path'', JStr ''/etc/evil'')]))
       = Inr (True, ''Folder created/ensured: /etc/evil'')"
    by code_simp
  have c: "snd (execute_action example_lib example_ws example_fs
          (JObj [(''type'', JStr ''create_folder''), (''path'', JStr ''/etc/evil'')]))
         [''etc'', ''evil'']
       = Some Dir"
    by code_simp
  have d: "execute_action example_lib example_ws example_fs
          (JObj [(''type'', JStr ''create_file''), (''path'', JStr ''/etc/evil'')])
       = (Inr (False, ''Error: Path '' @ sq @ ''/etc/evil'' @ sq
            @ '' is outside the allowed workspace.''), example_fs)"
    by (rule traversal_rejected [where t = "JStr ''create_file''"])
      (simp_all add: dict_get_def o)
  from o a b c d show ?thesis by blast
qed

theorem create_folder_escapes_witness:
  "snd (execute_action example_lib example_ws example_fs
          (JObj [(''type'', JStr ''create_folder''), (''path'', JStr ''/etc/evil'')]))
      [''etc'', ''evil'']
   \<noteq> example_fs [''etc'', ''evil'']"
  using create_folder_escapes by simp

section \<open>Actions without a type or a path\<close>

text \<open>
  A field is missing or empty when the \<^verbatim>\<open>dict\<close> has no such key, or its value
  is one that \<^verbatim>\<open>not\<close> takes for false: \<^verbatim>\<open>None\<close>, the empty string, and the
  other empty values.
\<close>

definition missing_or_empty :: "(string \<times> json) list \<Rightarrow> string \<Rightarrow> bool" where
  "missing_or_empty kvs k = (case map_of kvs k of None \<Rightarrow> True | Some v \<Rightarrow> \<not> truthy v)"

text \<open>
  Claim C10. For every action dictionary whose \<^verbatim>\<open>type\<close> or \<^verbatim>\<open>path\<close> field is
  missing or empty, \<^verbatim>\<open>execute_action\<close> returns failure with the message
  \<^verbatim>\<open>Error: Action type or path missing.\<close> and leaves the file system as it
  was. The result depends neither on the workspace root nor on the other
  field: the check stands before the resolution of the path, so a path that
  would leave the workspace gets this message too.
\<close>

theorem missing_field_rejected:
  assumes "missing_or_empty kvs ''type'' \<or> missing_or_empty kvs ''path''"
  shows "execute_action L ws fs (JObj kvs)
           = (Inr (False, ''Error: Action type or path missing.''), fs)"
  using assms
  by (auto simp: execute_action_def missing_or_empty_def dict_get_def split: option.splits)

theorem missing_field_rejected_witness:
  "missing_or_empty [(''path'', JStr ''../../etc/passwd'')] ''type''
   \<and> execute_action example_lib example_ws example_fs
         (JObj [(''path'', JStr ''../../etc/passwd'')])
       = (Inr (False, ''Error: Action type or path missing.''), example_fs)"
  using missing_field_rejected
    [of "[(''path'', JStr ''../../etc/passwd'')]" example_lib example_ws example_fs]
  by (simp add: missing_or_empty_def)

section \<open>Runs of the plan loop\<close>

text \<open>
  The vocabulary of the statements about the loop. \<open>assistant m\<close> is the entry
  the program appends for the text \<open>m\<close>. \<open>ok_prefix\<close> applies the actions of
  a list in order, each to the file system the one before left, and gives
  their messages and the last file system when every one reports success.
  \<open>log_of\<close> is the part of the history that such steps write, \<open>record_ok\<close>
  what they write and emit.
\<close>

definition assistant :: "string \<Rightarrow> entry" where
  "assistant m = \<lparr>role = ''assistant'', content = JStr m\<rparr>"

fun ok_prefix :: "pylib \<Rightarrow> path \<Rightarrow> fs \<Rightarrow> json list \<Rightarrow> (string list \<times> fs) option" where
  "ok_prefix L ws fs [] = Some ([], fs)"
| "ok_prefix L ws fs (a # as) =
     (case execute_action L ws fs a of
        (Inr (True, m), fs1) \<Rightarrow>
          (case ok_prefix L ws fs1 as of
             None \<Rightarrow> None
           | Some (ms, fs2) \<Rightarrow> Some (m # ms, fs2))
      | _ \<Rightarrow> None)"

fun log_of :: "pylib \<Rightarrow> nat \<Rightarrow> nat \<Rightarrow> json list \<Rightarrow> string list \<Rightarrow> entry list" where
  "log_of L n i (a # as) (m # ms) =
     assistant (step_message L (i + 1) n a) # assistant (result_message (i + 1) m)
       # log_of L n (i + 1) as ms"
| "log_of L n i as ms = []"

fun record_ok :: "pylib \<Rightarrow> nat \<Rightarrow> nat \<Rightarrow> json list \<Rightarrow> string list \<Rightarrow> run \<Rightarrow> run" where
  "record_ok L n i (a # as) (m # ms) st =
     record_ok L n (i + 1) as ms
       (emit True (say (result_message (i + 1) m) (emit True (say (step_message L (i + 1) n a) st))))"
| "record_ok L n i as ms st = st"

lemma say_simps [simp]:
  "history (say m st) = history st @ [assistant m]"
  "ctl (say m st) = ctl st"
  "files (say m st) = files st"
  "events (say m st) = events st"
  by (simp_all add: say_def append_value_def assistant_def)

lemma emit_simps [simp]:
  "history (emit b st) = history st"
  "ctl (emit b st) = ctl st"
  "files (emit b st) = files st"
  "events (emit b st) = events st @ [\<lparr>ev_history = history st, ev_controls = ctl st, ev_interactive = b\<rparr>]"
  by (simp_all add: emit_def)

lemma say_files_update: "say m (st\<lparr>files := f\<rparr>) = (say m st)\<lparr>files := f\<rparr>"
  by (simp add: say_def append_value_def)

lemma emit_files_update: "emit b (st\<lparr>files := f\<rparr>) = (emit b st)\<lparr>files := f\<rparr>"
  by (simp add: emit_def)

lemma record_ok_files_update:
  "record_ok L n i as ms (st\<lparr>files := f\<rparr>) = (record_ok L n i as ms st)\<lparr>files := f\<rparr>"
  by (induction L n i as ms st rule: record_ok.induct)
    (simp_all add: say_files_update emit_files_update)

lemma record_ok_fields [simp]:
  "ctl (record_ok L n i as ms st) = ctl st"
  "files (record_ok L n i as ms st) = files st"
  by (induction L n i as ms st rule: record_ok.induct) simp_all

lemma record_ok_history:
  "history (record_ok L n i as ms st) = history st @ log_of L n i as ms"
  by (induction L n i as ms st rule: record_ok.induct) simp_all

lemma ok_prefix_length: "ok_prefix L ws fs as = Some (ms, fs') \<Longrightarrow> length ms = length as"
  by (induction as arbitrary: fs ms) (auto split: prod.splits sum.splits bool.splits option.splits)

lemma run_steps_ok_prefix:
  assumes "ok_prefix L ws (files st) pre = Some (ms, fs1)"
    and "\<forall>j < length pre. \<not> halts (i + j)"
    and "\<not> halt_requested (ctl st)"
  shows "run_steps L ws halts n i (pre @ rest) st
           = run_steps L ws halts n (i + length pre) rest ((record_ok L n i pre ms st)\<lparr>files := fs1\<rparr>)"
  using assms
proof (induction pre arbitrary: i st ms)
  case Nil
  then show ?case by auto
next
  case (Cons a pre)
  from Cons.prems(1) obtain m ms' fs0 where
    ex: "execute_action L ws (files st) a = (Inr (True, m), fs0)"
    and rest: "ok_prefix L ws fs0 pre = Some (ms', fs1)" and ms: "ms = m # ms'"
    by (auto split: prod.splits sum.splits bool.splits option.splits)
  from Cons.prems(2) have h0: "\<not> halts i" and hs: "\<forall>j < length pre. \<not> halts (Suc i + j)"
    by fastforce+
  let ?st2 = "emit True (say (result_message (i + 1) m)
                ((emit True (say (step_message L (i + 1) n a) st))\<lparr>files := fs0\<rparr>))"
  have step: "run_steps L ws halts n i ((a # pre) @ rest) st
                = run_steps L ws halts n (Suc i) (pre @ rest) ?st2"
    using h0 Cons.prems(3) ex by (simp add: Let_def)
  have "run_steps L ws halts n (Suc i) (pre @ rest) ?st2
          = run_steps L ws halts n (Suc i + length pre) rest
              ((record_ok L n (Suc i) pre ms' ?st2)\<lparr>files := fs1\<rparr>)"
    using rest hs Cons.prems(3) by (intro Cons.IH) simp_all
  also have "(record_ok L n (Suc i) pre ms' ?st2)\<lparr>files := fs1\<rparr>
               = (record_ok L n i (a # pre) ms st)\<lparr>files := fs1\<rparr>"
    by (simp add: ms say_files_update emit_files_update record_ok_files_update)
  finally show ?case using step by simp
qed

section \<open>Failure and halt in the loop\<close>

lemma record_ok_events_length:
  "length ms = length as \<Longrightarrow>
     length (events (record_ok L n i as ms st)) = length (events st) + 2 * length as"
  by (induction L n i as ms st rule: record_ok.induct) simp_all

lemma record_ok_events_prefix:
  "take (length (events st)) (events (record_ok L n i as ms st)) = events st"
proof (induction L n i as ms st rule: record_ok.induct)
  case (1 L n i a as m ms st)
  let ?st = "emit True (say (result_message (i + 1) m) (emit True (say (step_message L (i + 1) n a) st)))"
  have "take (length (events st)) (events (record_ok L n (i + 1) as ms ?st))
          = take (length (events st)) (take (length (events ?st)) (events (record_ok L n (i + 1) as ms ?st)))"
    by (simp add: min_def)
  also have "\<dots> = take (length (events st)) (events ?st)"
    by (simp only: "1.IH")
  also have "\<dots> = events st"
    by simp
  finally show ?case by simp
qed simp_all

section \<open>Concrete plans\<close>

text \<open>
  A run state at the start of the loop, three actions and two plans made of
  them, for the instances of the theorems about the loop.
\<close>

definition example_run :: run where
  "example_run = \<lparr>history = [], ctl = \<lparr>halt_requested = False\<rparr>, files = example_fs, events = []\<rparr>"


definition file_main :: json where
  "file_main = JObj [(''type'', JStr ''create_file''), (''path'', JStr ''app/main.txt''), (''content'', JStr ''hi'')]"

lemmas eval_defs = execute_action_def dict_get_def try_body_def Let_def joinpath_def anchor_of_def
  parts_of_def resolve_def in_parents perform_def mkdir.simps mkdir_noparents_def os_mkdir_def open_w_def
  example_ws_def example_fs_def

lemma folder_app_ok:
  "execute_action example_lib example_ws example_fs folder_app
     = (Inr (True, ''Folder created/ensured: app''),
        example_fs([''home'', ''agent_workspace'', ''app''] \<mapsto> Dir))"
  by (simp add: folder_app_def eval_defs)



definition halted_plan :: "json list" where
  "halted_plan = [folder_app, file_main]"



text \<open>
  Claim C2. For every plan of N \<ge> 1 steps, if the halt is requested before step
  k begins and no earlier step failed, the executor emits a halt notice naming
  step k, the steps 1 to k - 1 that were applied remain applied, and the steps
  k to N are never attempted; the halt check stands before any mutation of
  step k. The plan is \<open>pre @ a # post\<close> with k - 1 steps in \<open>pre\<close>, which
  succeed; the request arrives before the flag is read for step k and not
  before. The history gains the echo and the result of the steps 1 to k - 1
  and the notice for step k; the file system is the one step k - 1 left,
  whatever \<open>a\<close> and \<open>post\<close> are; the last event shows that history with the
  halt button disabled.
\<close>

theorem halt_before_step:
  assumes plan: "plan = pre @ a # post"
    and ok: "ok_prefix L ws (files st) pre = Some (ms, fs1)"
    and quiet: "\<forall>j < length pre. \<not> halts j" "\<not> halt_requested (ctl st)"
    and halt: "halts (length pre)"
  defines "r \<equiv> run_steps L ws halts (length plan) 0 plan st"
  shows "fst r = Flags True True
    \<and> history (snd r) = history st @ log_of L (length plan) 0 pre ms
         @ [assistant (nl @ ''Execution halted by user request before step ''
              @ str_nat (length pre + 1) @ ''.'')]
    \<and> files (snd r) = fs1
    \<and> ctl (snd r) = request_halt (ctl st)
    \<and> take (length (events st)) (events (snd r)) = events st
    \<and> length (events (snd r)) = length (events st) + 2 * length pre + 1
    \<and> last (events (snd r))
         = \<lparr>ev_history = history (snd r), ev_controls = request_halt (ctl st),
            ev_interactive = False\<rparr>"
proof -
  let ?n = "length plan"
  let ?st1 = "(record_ok L ?n 0 pre ms st)\<lparr>files := fs1\<rparr>"
  have len: "length ms = length pre"
    using ok by (rule ok_prefix_length)
  have "r = run_steps L ws halts ?n (0 + length pre) (a # post) ?st1"
    unfolding r_def plan using ok quiet by (intro run_steps_ok_prefix) simp_all
  then have r: "r = (Flags True True,
      emit False (say (halt_message (length pre)) (?st1\<lparr>ctl := request_halt (ctl ?st1)\<rparr>)))"
    using halt by (simp add: Let_def request_halt_def)
  show ?thesis
    unfolding r
    by (simp add: record_ok_history record_ok_events_length len record_ok_events_prefix
        halt_message_def)
qed

theorem halt_before_step_witness:
  "fst (run_steps example_lib example_ws (\<lambda>i. i = 1) (length halted_plan) 0 halted_plan example_run)
     = Flags True True
   \<and> history (snd (run_steps example_lib example_ws (\<lambda>i. i = 1) (length halted_plan) 0
         halted_plan example_run))
     = [assistant (step_message example_lib 1 (length halted_plan) folder_app),
        assistant (result_message 1 ''Folder created/ensured: app''),
        assistant (nl @ ''Execution halted by user request before step '' @ str_nat 2 @ ''.'')]
   \<and> files (snd (run_steps example_lib example_ws (\<lambda>i. i = 1) (length halted_plan) 0
         halted_plan example_run))
     = example_fs([''home'', ''agent_workspace'', ''app''] \<mapsto> Dir)"
proof -
  have plan: "halted_plan = [folder_app] @ file_main # []"
    by (simp add: halted_plan_def)
  have ok: "ok_prefix example_lib example_ws (files example_run) [folder_app]
              = Some ([''Folder created/ensured: app''],
                  example_fs([''home'', ''agent_workspace'', ''app''] \<mapsto> Dir))"
    by (simp add: example_run_def folder_app_ok)
  have quiet: "\<forall>j < length [folder_app]. \<not> (\<lambda>i. i = 1) j" "\<not> halt_requested (ctl example_run)"
    and halt: "(\<lambda>i. i = 1) (length [folder_app])"
    by (simp_all add: example_run_def)
  from halt_before_step [OF plan ok quiet halt]
  show ?thesis
    by (simp add: example_run_def numeral_2_eq_2 del: run_steps.simps)
qed

section \<open>Parse errors and invalid plans\<close>

lemma split_once_Some: "split_once sep s = Some (a, b) \<Longrightarrow> s = a @ sep @ b"
proof (induction s arbitrary: a)
  case Nil
  then show ?case by (simp split: if_splits)
next
  case (Cons c cs)
  show ?case
  proof (cases "prefix sep (c # cs)")
    case True
    with Cons.prems have "a = []" "b = drop (length sep) (c # cs)" by simp_all
    with True show ?thesis
      by (metis append_Nil append_take_drop_id prefix_def append_eq_conv_conj)
  next
    case False
    with Cons.prems obtain a' where "split_once sep cs = Some (a', b)" "a = c # a'"
      by (auto split: option.splits)
    with Cons.IH show ?thesis by simp
  qed
qed

lemma split_once_first:
  "s = a' @ sep @ b' \<Longrightarrow> \<exists>a b. split_once sep s = Some (a, b) \<and> length a \<le> length a'"
proof (induction s arbitrary: a')
  case Nil
  then show ?case by simp
next
  case (Cons c cs)
  show ?case
  proof (cases "prefix sep (c # cs)")
    case True
    then show ?thesis by simp
  next
    case False
    with Cons.prems have "a' \<noteq> []"
      by (auto simp: prefix_def)
    with Cons.prems obtain a'' where a'': "a' = c # a''" "cs = a'' @ sep @ b'"
      by (cases a') auto
    from Cons.IH [OF a''(2)] obtain a b where "split_once sep cs = Some (a, b)" "length a \<le> length a''"
      by blast
    with False a''(1) show ?thesis by simp
  qed
qed

lemma split_once_None: "split_once sep s = None \<longleftrightarrow> \<not> (\<exists>a b. s = a @ sep @ b)"
proof
  assume "split_once sep s = None"
  then show "\<not> (\<exists>a b. s = a @ sep @ b)"
    using split_once_first [of s _ sep] by fastforce
next
  assume "\<not> (\<exists>a b. s = a @ sep @ b)"
  then show "split_once sep s = None"
    using split_once_Some [of sep s] by (cases "split_once sep s") auto
qed

lemma fence_after_first:
  assumes sp: "split_once M raw = Some (a, rest)"
    and raw: "raw = pre @ M @ mid @ F @ post"
  shows "\<exists>x y. rest = x @ F @ y"
proof -
  from split_once_first [OF raw] sp have le: "length a \<le> length pre"
    by simp
  from split_once_Some [OF sp] have raw2: "raw = a @ M @ rest" .
  let ?k = "length a + length M"
  have "rest = drop ?k raw"
    using raw2 by (metis append.assoc append_eq_conv_conj length_append)
  also have "raw = (pre @ M @ mid) @ F @ post"
    using raw by simp
  also have "drop ?k \<dots> = drop ?k (pre @ M @ mid) @ F @ post"
    using le by (simp del: append_assoc)
  finally show ?thesis by blast
qed

text \<open>
  The text holds a fenced JSON block: the marker, and a closing fence after it.
\<close>

definition has_block :: "string \<Rightarrow> bool" where
  "has_block raw = (\<exists>pre mid post. raw = pre @ (fence @ ''json'') @ mid @ fence @ post)"

lemma json_str_None: "json_str raw = None \<longleftrightarrow> \<not> has_block raw"
proof
  assume n: "json_str raw = None"
  show "\<not> has_block raw"
  proof
    assume "has_block raw"
    then obtain pre mid post where raw: "raw = pre @ (fence @ ''json'') @ mid @ fence @ post"
      unfolding has_block_def by blast
    then obtain a rest where sp: "split_once (fence @ ''json'') raw = Some (a, rest)"
      using split_once_first [OF raw] by blast
    from fence_after_first [OF sp raw] have "split_once fence rest \<noteq> None"
      by (simp add: split_once_None)
    with sp n show False
      by (auto simp: json_str_def)
  qed
next
  assume nb: "\<not> has_block raw"
  show "json_str raw = None"
  proof (rule ccontr)
    assume "json_str raw \<noteq> None"
    then obtain a rest body post where "split_once (fence @ ''json'') raw = Some (a, rest)"
      "split_once fence rest = Some (body, post)"
      by (auto simp: json_str_def split: option.splits)
    then have "raw = a @ (fence @ ''json'') @ body @ fence @ post"
      using split_once_Some by blast
    with nb show False
      unfolding has_block_def by blast
  qed
qed

lemma json_str_Some:
  assumes "json_str raw = Some js"
  shows "\<exists>pre body post. raw = pre @ (fence @ ''json'') @ body @ fence @ post \<and> js = strip body"
proof -
  from assms obtain a rest body post where "split_once (fence @ ''json'') raw = Some (a, rest)"
    "split_once fence rest = Some (body, post)" "js = strip body"
    by (auto simp: json_str_def split: option.splits)
  then show ?thesis
    using split_once_Some by blast
qed

text \<open>
  The shape of a turn that only reports: after the first event and the
  "Thinking..." entry, one entry \<open>m\<close> is appended and shown, and the last
  \<^verbatim>\<open>yield\<close> shows it again. No event enables the halt button, and the file
  system is the one the turn began with.
\<close>

definition quiet_event :: "entry list \<Rightarrow> controls \<Rightarrow> event" where
  "quiet_event h c = \<lparr>ev_history = h, ev_controls = c, ev_interactive = False\<rparr>"

definition turn_start :: "fs \<Rightarrow> entry list \<Rightarrow> controls \<Rightarrow> run" where
  "turn_start fs h0 c0 =
     (let c = c0\<lparr>halt_requested := False\<rparr>; h1 = h0 @ [assistant ''Thinking...'']
      in \<lparr>history = h1, ctl = c, files = fs, events = [quiet_event h0 c, quiet_event h1 c]\<rparr>)"

definition notice_run :: "fs \<Rightarrow> entry list \<Rightarrow> controls \<Rightarrow> string \<Rightarrow> run" where
  "notice_run fs h0 c0 m =
     (let c = c0\<lparr>halt_requested := False\<rparr>;
          h1 = h0 @ [assistant ''Thinking...''];
          h2 = h1 @ [assistant m]
      in \<lparr>history = h2, ctl = c, files = fs,
          events = [quiet_event h0 c, quiet_event h1 c, quiet_event h2 c, quiet_event h2 c]\<rparr>)"

lemma agent_chat_response_unfold:
  "agent_chat_response L ws reply halts fs message h0 c0 =
     (case respond L ws reply halts (turn_start fs h0 c0) of
        (Some e, st3) \<Rightarrow>
          emit False (emit False (say (''An unexpected error occurred: '' @ exc_str L e @ ''.'') st3))
      | (None, st3) \<Rightarrow> emit False st3)"
  by (simp add: agent_chat_response_def turn_start_def Let_def emit_def say_def append_value_def
      assistant_def quiet_event_def)

lemma notice_run_eq:
  "emit False (emit False (say m (turn_start fs h0 c0))) = notice_run fs h0 c0 m"
  by (simp add: turn_start_def notice_run_def Let_def emit_def say_def append_value_def
      assistant_def quiet_event_def)

lemma parse_response_Inr:
  "parse_response L raw = Inr v \<Longrightarrow> is_dict v \<and> map_of (items v) ''response_type'' \<noteq> None \<and> truthy v"
  by (cases v) (auto simp: parse_response_def is_dict_def items_def split: option.splits if_splits)

lemma respond_parse_failure:
  "parse_response L raw = Inl e \<Longrightarrow>
     respond L ws (Inr raw) halts st = (None, emit False (say (parse_failure_message raw) st))"
  by (simp add: respond_def Let_def parse_failure_message_def)

lemma respond_plan:
  assumes "parse_response L raw = Inr v"
    and "dict_get (items v) ''response_type'' JNull = JStr ''plan''"
  shows "respond L ws (Inr raw) halts st = process_plan L ws halts v st"
  using assms parse_response_Inr [OF assms(1)]
  by (simp add: respond_def Let_def)

text \<open>
  Claim C5. For every raw model text, parsing fails with \<open>NoJsonBlock\<close> when no
  fenced JSON block is present, with \<open>InvalidJson\<close> when the extracted
  substring (\<open>json_str\<close>, the stripped text between the first marker and the
  next fence) is not valid JSON, and with \<open>MissingResponseType\<close> when the parsed
  value is not an object with the key \<^verbatim>\<open>response_type\<close>. Each of the three is
  recovered into the same entry of the history, which holds the first 500
  characters of the raw text; the turn ends as any other, with no exception
  and the file system unchanged.
\<close>

theorem parse_errors_recovered:
  "(parse_response L raw = Inl NoJsonBlock \<longleftrightarrow> \<not> has_block raw)
   \<and> (parse_response L raw = Inl InvalidJson
        \<longleftrightarrow> (\<exists>js. json_str raw = Some js \<and> loads L js = None))
   \<and> (parse_response L raw = Inl MissingResponseType
        \<longleftrightarrow> (\<exists>js v. json_str raw = Some js \<and> loads L js = Some v
               \<and> \<not> (is_dict v \<and> map_of (items v) ''response_type'' \<noteq> None)))
   \<and> (\<forall>e. parse_response L raw = Inl e \<longrightarrow>
         agent_chat_response L ws (Inr raw) halts fs message h0 c0
           = notice_run fs h0 c0
               (''Error: Could not parse the response from the AI.'' @ nl
                  @ ''(Raw response: '' @ take 500 raw @ ''...)''))"
proof (intro conjI allI impI)
  show "parse_response L raw = Inl NoJsonBlock \<longleftrightarrow> \<not> has_block raw"
    unfolding json_str_None [symmetric]
    by (auto simp: parse_response_def split: option.splits)
  show "parse_response L raw = Inl InvalidJson
          \<longleftrightarrow> (\<exists>js. json_str raw = Some js \<and> loads L js = None)"
    by (auto simp: parse_response_def split: option.splits)
  show "parse_response L raw = Inl MissingResponseType
          \<longleftrightarrow> (\<exists>js v. json_str raw = Some js \<and> loads L js = Some v
                 \<and> \<not> (is_dict v \<and> map_of (items v) ''response_type'' \<noteq> None))"
    by (auto simp: parse_response_def split: option.splits)
next
  fix e
  assume "parse_response L raw = Inl e"
  then show "agent_chat_response L ws (Inr raw) halts fs message h0 c0
           = notice_run fs h0 c0
               (''Error: Could not parse the response from the AI.'' @ nl
                  @ ''(Raw response: '' @ take 500 raw @ ''...)'')"
    by (simp add: agent_chat_response_unfold respond_parse_failure notice_run_eq
        parse_failure_message_def)
qed

theorem parse_errors_recovered_witness:
  "\<not> has_block ''no json here''
   \<and> parse_response example_lib (fenced ''{oops'') = Inl InvalidJson
   \<and> parse_response example_lib (fenced ''[]'') = Inl MissingResponseType
   \<and> agent_chat_response example_lib example_ws (Inr (fenced ''{oops'')) (\<lambda>i. False) example_fs
        ''make an app'' [] \<lparr>halt_requested = True\<rparr>
      = notice_run example_fs [] \<lparr>halt_requested = True\<rparr>
          (''Error: Could not parse the response from the AI.'' @ nl
             @ ''(Raw response: '' @ take 500 (fenced ''{oops'') @ ''...)'')"
proof -
  have a: "parse_response example_lib ''no json here'' = Inl NoJsonBlock"
    by code_simp
  have b: "parse_response example_lib (fenced ''{oops'') = Inl InvalidJson"
    by code_simp
  have c: "parse_response example_lib (fenced ''[]'') = Inl MissingResponseType"
    by code_simp
  from parse_errors_recovered [of example_lib "''no json here''"] a
  have "\<not> has_block ''no json here''"
    by blast
  moreover from parse_errors_recovered [of example_lib "fenced ''{oops''" example_ws "\<lambda>i. False"
      example_fs "''make an app''" "[]" "\<lparr>halt_requested = True\<rparr>"] b
  have "agent_chat_response example_lib example_ws (Inr (fenced ''{oops'')) (\<lambda>i. False) example_fs
        ''make an app'' [] \<lparr>halt_requested = True\<rparr>
      = notice_run example_fs [] \<lparr>halt_requested = True\<rparr>
          (''Error: Could not parse the response from the AI.'' @ nl
             @ ''(Raw response: '' @ take 500 (fenced ''{oops'') @ ''...)'')"
    by blast
  ultimately show ?thesis
    using b c by blast
qed

text \<open>
  Claim C6. For every parsed response of type \<^verbatim>\<open>plan\<close> whose \<^verbatim>\<open>plan_steps\<close> is
  empty (or absent, which defaults to empty) or not a list, the turn reports
  the notice "The AI generated an empty or invalid plan. Please try again.":
  no parse error, no exception, no step event, no change of the file system.
\<close>

theorem invalid_plan_notice:
  assumes "parse_response L raw = Inr v"
    and "dict_get (items v) ''response_type'' JNull = JStr ''plan''"
    and "dict_get (items v) ''plan_steps'' (JList []) = JList []
         \<or> \<not> is_list (dict_get (items v) ''plan_steps'' (JList []))"
  shows "agent_chat_response L ws (Inr raw) halts fs message h0 c0
           = notice_run fs h0 c0 ''The AI generated an empty or invalid plan. Please try again.''"
proof -
  from assms(3) have "(is_list (dict_get (items v) ''plan_steps'' (JList []))
      \<and> truthy (dict_get (items v) ''plan_steps'' (JList []))) = False"
    by auto
  then have "process_plan L ws halts v st = (None, emit False (say invalid_plan_message st))" for st
    unfolding process_plan_def Let_def by (simp only: if_False)
  then show ?thesis
    using assms(1,2)
    by (simp add: agent_chat_response_unfold respond_plan notice_run_eq invalid_plan_message_def)
qed

theorem invalid_plan_notice_witness:
  "parse_response example_lib (fenced empty_plan_text) = Inr empty_plan
   \<and> agent_chat_response example_lib example_ws (Inr (fenced empty_plan_text)) (\<lambda>i. False)
        example_fs ''make an app'' [] \<lparr>halt_requested = False\<rparr>
      = notice_run example_fs [] \<lparr>halt_requested = False\<rparr>
          ''The AI generated an empty or invalid plan. Please try again.''"
proof -
  have p: "parse_response example_lib (fenced empty_plan_text) = Inr empty_plan"
    by code_simp
  have t: "dict_get (items empty_plan) ''response_type'' JNull = JStr ''plan''"
    by code_simp
  have e: "dict_get (items empty_plan) ''plan_steps'' (JList []) = JList []"
    by code_simp
  from invalid_plan_notice [OF p t disjI1 [OF e]] p show ?thesis
    by blast
qed

section \<open>Acceptance of a plan\<close>


text \<open>Lines 219 to 225: the text of the declared languages, or the exception of \<^verbatim>\<open>join\<close>.\<close>

definition lang_str_of :: "json \<Rightarrow> py_exc + string" where
  "lang_str_of parsed_response =
     (let languages_used = dict_get (items parsed_response) ''languages_used'' (JList []);
          declared_languages = (if \<not> is_list languages_used then [] else elements languages_used)
      in if declared_languages \<noteq> [] then join_strs '', '' declared_languages else Inr ''N/A'')"

lemma process_plan_accepted:
  assumes "dict_get (items v) ''plan_steps'' (JList []) = JList plan" "plan \<noteq> []"
    and "lang_str_of v = Inr ls"
  shows "process_plan L ws halts v st =
     (case run_steps L ws halts (length plan) 0 plan (emit True (say (plan_message (length plan) ls) st)) of
        (Raised e, st2) \<Rightarrow> (Some e, st2)
      | (Flags all_steps_succeeded execution_halted, st2) \<Rightarrow>
          (None, after_loop all_steps_succeeded execution_halted st2))"
  using assms
  by (simp add: process_plan_def lang_str_of_def Let_def is_list_def elements_def)

lemma run_steps_history_prefix:
  "prefix (history st) (history (snd (run_steps L ws halts n i as st)))"
proof (induction L ws halts n i as st rule: run_steps.induct)
  case (1 L ws halts n i st)
  then show ?case by simp
next
  case (2 L ws halts n i a rest st)
  let ?st0 = "if halts i then st\<lparr>ctl := request_halt (ctl st)\<rparr> else st"
  show ?case
  proof (cases "halt_requested (ctl ?st0)")
    case True
    then show ?thesis by (simp add: Let_def)
  next
    case False
    let ?st1 = "emit True (say (step_message L (i + 1) n a) ?st0)"
    obtain res fs1 where ex: "execute_action L ws (files ?st1) a = (res, fs1)"
      by (cases "execute_action L ws (files ?st1) a")
    show ?thesis
    proof (cases res)
      case (Inl e)
      with False ex show ?thesis by (simp add: Let_def)
    next
      case (Inr sm)
      obtain success m where sm: "sm = (success, m)" by (cases sm)
      let ?st2 = "emit True (say (result_message (i + 1) m) (?st1\<lparr>files := fs1\<rparr>))"
      show ?thesis
      proof (cases success)
        case True
        have "prefix (history ?st2) (history (snd (run_steps L ws halts n (i + 1) rest ?st2)))"
          using False ex Inr sm True
          by (intro "2.IH" [where x = ?st0 and xa = "i + 1" and xb = ?st1]) (auto simp: Let_def)
        moreover have "prefix (history st) (history ?st2)"
          by simp
        ultimately have "prefix (history st) (history (snd (run_steps L ws halts n (i + 1) rest ?st2)))"
          by (rule prefix_order.trans [rotated])
        then show ?thesis
          using False ex Inr sm True by (simp add: Let_def)
      next
        case f: False
        then show ?thesis
          using False ex Inr sm by (simp add: Let_def)
      qed
    qed
  qed
qed

lemma after_loop_history_prefix: "prefix (history st) (history (after_loop a h st))"
  by (simp add: after_loop_def)

lemma process_plan_history_prefix:
  assumes "dict_get (items v) ''plan_steps'' (JList []) = JList plan" "plan \<noteq> []"
    and "lang_str_of v = Inr ls"
  shows "prefix (history st @ [assistant (plan_message (length plan) ls)])
           (history (snd (process_plan L ws halts v st)))"
proof -
  let ?st1 = "emit True (say (plan_message (length plan) ls) st)"
  obtain ex st2 where r: "run_steps L ws halts (length plan) 0 plan ?st1 = (ex, st2)"
    by (cases "run_steps L ws halts (length plan) 0 plan ?st1")
  have p: "prefix (history ?st1) (history st2)"
    using run_steps_history_prefix [of ?st1 L ws halts "length plan" 0 plan] r by simp
  show ?thesis
  proof (cases ex)
    case (Flags a h)
    with r have "snd (process_plan L ws halts v st) = after_loop a h st2"
      by (simp add: process_plan_accepted [OF assms])
    with p after_loop_history_prefix [of st2 a h] show ?thesis
      by (metis emit_simps(1) prefix_order.trans say_simps(1))
  next
    case (Raised e)
    with r have "snd (process_plan L ws halts v st) = st2"
      by (simp add: process_plan_accepted [OF assms])
    with p show ?thesis by simp
  qed
qed

lemma agent_history_prefix:
  "prefix (history (snd (respond L ws reply halts (turn_start fs h0 c0))))
     (history (agent_chat_response L ws reply halts fs message h0 c0))"
  unfolding agent_chat_response_unfold
  by (cases "respond L ws reply halts (turn_start fs h0 c0)")
    (auto split: option.splits)





section \<open>Events after a terminal state\<close>

text \<open>
  The notices of the three terminal states: the stopping notice, the notice of
  completion, and a halt notice for some step. An event shows a terminal state
  of the turn when its history ends with such a notice that the turn itself
  appended (\<open>n\<close> is the length of the history the turn began with).
\<close>

definition terminal_notice :: "json \<Rightarrow> bool" where
  "terminal_notice c =
     (case c of
        JStr s \<Rightarrow> s = stop_message \<or> s = done_message
          \<or> prefix (nl @ ''Execution halted by user request before step '') s
      | _ \<Rightarrow> False)"




lemma not_terminal [simp]:
  "\<not> terminal_notice (JStr (step_message L i n a))"
  "\<not> terminal_notice (JStr (result_message i m))"
  "\<not> terminal_notice (JStr (plan_message n ls))"
  "\<not> terminal_notice (JStr ''Thinking...'')"
  by (simp_all add: terminal_notice_def step_message_def result_message_def plan_message_def
      stop_message_def done_message_def nl_def)

lemma append_value_simps [simp]:
  "history (append_value v st) = history st @ [\<lparr>role = ''assistant'', content = v\<rparr>]"
  "ctl (append_value v st) = ctl st"
  "files (append_value v st) = files st"
  "events (append_value v st) = events st"
  by (simp_all add: append_value_def)


















section \<open>Directories\<close>


































section \<open>Files\<close>




















end
